theory Spec2Isabelle
  imports Complex_Main "HOL-Library.Char_ord" "HOL-Library.List_Lexorder" "HOL-Library.Product_Lexorder"
begin

section \<open>The event store\<close>

text \<open>
  One row of the \<open>events\<close> table, with the columns the three journey endpoints read.
  \<open>event_name\<close> and \<open>props\<close> are tested with \<open>IS NOT NULL\<close> in the queries, so they are
  nullable here (\<open>None\<close> is SQL NULL). Timestamps are integers (seconds); the store is the
  list of rows in ingestion order.
\<close>

record event =
  site_id :: int
  session_id :: string
  timestamp :: int
  type :: string
  pathname :: string
  event_name :: "string option"
  props :: "string option"
  user_id :: string
  identified_user_id :: string

section \<open>ClickHouse functions used by the queries\<close>

text \<open>\<open>splitByChar(sep, s)\<close>: the pieces of \<open>s\<close> between separators; never empty.\<close>

fun splitByChar :: "char \<Rightarrow> string \<Rightarrow> string list" where
  "splitByChar c [] = [[]]"
| "splitByChar c (x # xs) =
     (if x = c then [] # splitByChar c xs
      else (case splitByChar c xs of [] \<Rightarrow> [[x]] | w # ws \<Rightarrow> (x # w) # ws))"

text \<open>
  \<open>arr[i]\<close>: arrays are 1-based, a negative index counts from the end, and a read outside
  the array gives the default value of the element type (\<open>d\<close>: the empty string, or
  time 0). A constant index 0 is rejected by the server; the callers below check for it
  before they read.
\<close>

definition arrayElement :: "'a \<Rightarrow> 'a list \<Rightarrow> int \<Rightarrow> 'a" where
  "arrayElement d xs i =
     (if 1 \<le> i \<and> i \<le> int (length xs) then xs ! nat (i - 1)
      else if i < 0 \<and> - i \<le> int (length xs) then xs ! nat (int (length xs) + i)
      else d)"

text \<open>\<open>startsWith(s, prefix)\<close>.\<close>

definition startsWith :: "string \<Rightarrow> string \<Rightarrow> bool" where
  "startsWith s p = (take (length p) s = p)"

text \<open>
  \<open>arrayCompact\<close>: drops every element equal to the one before it (the scan keeps the
  previous element and compares).
\<close>

fun compact_from :: "'a \<Rightarrow> 'a list \<Rightarrow> 'a list" where
  "compact_from prev [] = []"
| "compact_from prev (x # xs) =
     (if x = prev then compact_from prev xs else x # compact_from x xs)"

definition arrayCompact :: "'a list \<Rightarrow> 'a list" where
  "arrayCompact xs = (case xs of [] \<Rightarrow> [] | x # r \<Rightarrow> x # compact_from x r)"

text \<open>
  What a query that fails throws: the name of a function the server does not have, a
  value that is not of the type of its parameter, or no answer at all.
\<close>

datatype query_error = UNKNOWN_FUNCTION string | BAD_PARAMETER | NO_ANSWER

text \<open>
  \<open>arrayIndexOf(arr, x)\<close>: both queries of getJourneyTransitionSessions.ts call a
  function of this name on \<open>path_sequence\<close>. ClickHouse has none (the position of an
  element in an array is its \<open>indexOf\<close>). The server resolves the names of functions when
  it analyses a query, before it reads a row, and refuses the query. So the name stands
  for an error and not for a function.
\<close>

definition arrayIndexOf :: "query_error + ('a list \<Rightarrow> 'a \<Rightarrow> nat)" where
  "arrayIndexOf = Inl (UNKNOWN_FUNCTION ''arrayIndexOf'')"

text \<open>\<open>arraySlice(arr, offset, length)\<close> for a positive offset and a length \<open>\<ge> 0\<close>.\<close>

definition arraySlice :: "'a list \<Rightarrow> nat \<Rightarrow> nat \<Rightarrow> 'a list" where
  "arraySlice xs off len = take len (drop (off - 1) xs)"

section \<open>Step labels\<close>

text \<open>The interaction event types listed in every \<open>type IN (...)\<close> of the queries.\<close>

definition interaction_types :: "string list" where
  "interaction_types =
     [''custom_event'', ''button_click'', ''copy'', ''form_submit'', ''input_change'', ''outbound'']"

text \<open>
  \<open>CONCAT('event:', type, IF(event_name != '' AND event_name IS NOT NULL,
  CONCAT(':', event_name), ''))\<close>; on a NULL name the condition is NULL and \<open>IF\<close> takes the
  else branch.
\<close>

definition event_label :: "string \<Rightarrow> string option \<Rightarrow> string" where
  "event_label t en =
     ''event:'' @ t @ (case en of None \<Rightarrow> [] | Some n \<Rightarrow> if n \<noteq> [] then '':'' @ n else [])"

text \<open>
  getJourneys.ts, lines 106 and 110:
  \<open>IF(length(splitByChar('/', pathname)) >= 3, CONCAT('/', splitByChar('/', pathname)[2]), pathname)\<close>.
\<close>

definition first_segment :: "string \<Rightarrow> string" where
  "first_segment p =
     (if length (splitByChar CHR ''/'' p) \<ge> 3
      then ''/'' @ arrayElement [] (splitByChar CHR ''/'' p) 2
      else p)"

text \<open>
  The two sibling files:
  \<open>CASE WHEN startsWith(pathname, '/asset/draft/') THEN '/asset/draft' ELSE pathname END\<close>.
\<close>

definition draft_prefix :: "string \<Rightarrow> string" where
  "draft_prefix p = (if startsWith p ''/asset/draft/'' then ''/asset/draft'' else p)"

text \<open>The \<open>step_label\<close> column of getJourneys.ts (lines 104--111).\<close>

definition step_label_getJourneys :: "string \<Rightarrow> string \<Rightarrow> string option \<Rightarrow> string" where
  "step_label_getJourneys t p en =
     (if t = ''pageview'' then first_segment p
      else if t \<in> set interaction_types then event_label t en
      else first_segment p)"

text \<open>\<open>stepLabelCase\<close> of getJourneyTransitionSessions.ts (lines 73--88).\<close>

definition stepLabelCase :: "string \<Rightarrow> string \<Rightarrow> string option \<Rightarrow> string" where
  "stepLabelCase t p en =
     (if t = ''pageview'' then draft_prefix p
      else if t \<in> set interaction_types then event_label t en
      else draft_prefix p)"

text \<open>The \<open>step_label\<close> column of getJourneyStepEventDetails (both of its queries).\<close>

definition step_label_getJourneyStepEventDetails ::
  "string \<Rightarrow> string \<Rightarrow> string option \<Rightarrow> string" where
  "step_label_getJourneyStepEventDetails t p en =
     (if t = ''pageview'' then draft_prefix p
      else if t \<in> set interaction_types then event_label t en
      else draft_prefix p)"

section \<open>JavaScript helpers\<close>

text \<open>
  \<open>parseInt(s, 10)\<close>: leading white space is skipped, one sign is read, then the longest
  run of decimal digits; no digit gives \<open>NaN\<close>, which is \<open>None\<close> here. Numbers are exact
  integers (JavaScript's are exact below \<open>2^53\<close>); white space is the ASCII part of
  JavaScript's.
\<close>

definition isWhiteSpace :: "char \<Rightarrow> bool" where
  "isWhiteSpace c = (c \<in> set [CHR '' '', CHR 0x09, CHR 0x0A, CHR 0x0B, CHR 0x0C, CHR 0x0D])"

definition isDigit :: "char \<Rightarrow> bool" where
  "isDigit c = (c \<in> set ''0123456789'')"

definition digitValue :: "char \<Rightarrow> nat" where
  "digitValue c = of_char c - 48"

definition parseInt :: "string \<Rightarrow> int option" where
  "parseInt s =
     (let s1 = dropWhile isWhiteSpace s;
          neg = (s1 \<noteq> [] \<and> hd s1 = CHR ''-'');
          s2 = (if s1 \<noteq> [] \<and> (hd s1 = CHR ''-'' \<or> hd s1 = CHR ''+'') then tl s1 else s1);
          ds = takeWhile isDigit s2;
          n = int (foldl (\<lambda>a c. 10 * a + digitValue c) 0 ds)
      in if ds = [] then None else Some (if neg then - n else n))"

text \<open>\<open>s.trim()\<close> and \<open>s.split(",")\<close>.\<close>

definition trim :: "string \<Rightarrow> string" where
  "trim s = rev (dropWhile isWhiteSpace (rev (dropWhile isWhiteSpace s)))"

definition split_comma :: "string \<Rightarrow> string list" where
  "split_comma s = splitByChar CHR '','' s"

text \<open>
  What \<open>JSON.parse(stepFilters)\<close> can give: a syntax error (caught: status 400), a value
  whose entries are not all strings (\<open>Object.entries\<close> or \<open>path.includes\<close> throws, which
  the outer handler turns into status 500), or the entries of an object of strings.
\<close>

datatype step_filters_json = JSyntaxError | JBadShape | JEntries "(string \<times> string) list"

text \<open>
  The collaborators that are outside these files. \<open>timeStatement\<close> and \<open>filterStatement\<close>
  are the conditions built by \<open>getTimeStatement\<close> and \<open>getFilterStatement\<close>, as predicates
  on a row; \<open>json_string_array s\<close> is \<open>Some\<close> of the elements (through \<open>String\<close>) when
  \<open>JSON.parse(s)\<close> is an array, and \<open>None\<close> when it throws or gives something else;
  \<open>regex_match pattern s\<close> is \<open>match(s, patternToRegex(pattern))\<close>; \<open>clickhouse_up\<close> says
  that the database answers (otherwise every query throws); \<open>traits_of sid\<close> are the
  traits the relational store holds for the user of session \<open>sid\<close> (none when the lookup
  fails); \<open>json_keys_values_raw\<close> is the server's \<open>JSONExtractKeysAndValuesRaw\<close>: the
  top-level keys of a JSON object, each with the raw text of its value.
\<close>

record env =
  timeStatement :: "event \<Rightarrow> bool"
  filterStatement :: "event \<Rightarrow> bool"
  json_string_array :: "string \<Rightarrow> string list option"
  json_step_filters :: "string \<Rightarrow> step_filters_json"
  regex_match :: "string \<Rightarrow> string \<Rightarrow> bool"
  clickhouse_up :: bool
  traits_of :: "string \<Rightarrow> (string \<times> string) list"
  json_keys_values_raw :: "string \<Rightarrow> (string \<times> string) list"

text \<open>A reply of a handler: \<open>reply.status(400).send\<close>, \<open>reply.status(500).send\<close>, \<open>reply.send\<close>.\<close>

datatype 'a reply = Status400 string | Status500 string | Send 'a

text \<open>
  The parsing of \<open>excludeEventNames\<close> (the same code in getJourneys.ts, lines 28--43, and
  in getJourneyTransitionSessions.ts, lines 58--70): a JSON array, or else a
  comma-separated list; names are trimmed and empty ones dropped.
\<close>

definition parse_excludeEventNames :: "env \<Rightarrow> string option \<Rightarrow> string list" where
  "parse_excludeEventNames env q =
     (case q of
        None \<Rightarrow> []
      | Some s \<Rightarrow>
          if s = [] then []
          else (case json_string_array env s of
                  Some names \<Rightarrow> filter (\<lambda>n. n \<noteq> []) (map trim names)
                | None \<Rightarrow> filter (\<lambda>n. n \<noteq> []) (map trim (split_comma s))))"

section \<open>The event scan shared by the path queries\<close>

text \<open>
  The part of the \<open>WHERE\<close> clause on the event type: page views, the interaction types
  when \<open>includeEventsInJourney\<close>, and, when names are excluded,
  \<open>NOT (type IN (...) AND event_name IN (...))\<close>, which is NULL (row dropped) for an
  interaction event with a NULL name.
\<close>

definition not_excluded :: "string list \<Rightarrow> event \<Rightarrow> bool" where
  "not_excluded excl e =
     (type e \<notin> set interaction_types \<or>
      (case event_name e of None \<Rightarrow> False | Some n \<Rightarrow> n \<notin> set excl))"

definition base_where :: "env \<Rightarrow> int \<Rightarrow> event \<Rightarrow> bool" where
  "base_where env siteId e =
     (site_id e = siteId \<and> timeStatement env e \<and> filterStatement env e)"

definition path_where :: "env \<Rightarrow> int \<Rightarrow> bool \<Rightarrow> string list \<Rightarrow> event \<Rightarrow> bool" where
  "path_where env siteId includeEventsInJourney excludedEventNames e =
     (base_where env siteId e \<and>
      (type e = ''pageview'' \<or> (includeEventsInJourney \<and> type e \<in> set interaction_types)) \<and>
      (excludedEventNames = [] \<or> not_excluded excludedEventNames e))"

text \<open>
  \<open>SELECT ... FROM events WHERE ... ORDER BY session_id, timestamp\<close>. Rows with equal keys
  keep their ingestion order (the sort is taken to be stable).
\<close>

definition scan_rows :: "(event \<Rightarrow> bool) \<Rightarrow> event list \<Rightarrow> event list" where
  "scan_rows wh store = sort_key (\<lambda>e. (session_id e, timestamp e)) (filter wh store)"

text \<open>
  \<open>GROUP BY session_id\<close>: one group per session, holding its rows in the order of the
  scan (\<open>groupArray\<close> appends in that order).
\<close>

definition group_by_session :: "event list \<Rightarrow> (string \<times> event list) list" where
  "group_by_session rows =
     map (\<lambda>sid. (sid, filter (\<lambda>e. session_id e = sid) rows)) (remdups (map session_id rows))"

section \<open>getJourneys\<close>

text \<open>The query string of the request; a missing parameter is \<open>None\<close>.\<close>

record journeys_query =
  jq_steps :: "string option"
  jq_limit :: "string option"
  jq_stepFilters :: "string option"
  jq_includeEvents :: "string option"
  jq_excludeEventNames :: "string option"

text \<open>One entry of the response: \<open>{ path, count, percentage }\<close>.\<close>

record journey =
  path :: "string list"
  count :: nat
  percentage :: rat

text \<open>
  The CTE \<open>user_paths\<close> (lines 95--128): per session the compacted array of step labels,
  kept when \<open>length(path_sequence) >= 2\<close>.
\<close>

definition user_paths_getJourneys ::
  "(event \<Rightarrow> bool) \<Rightarrow> event list \<Rightarrow> (string \<times> string list) list" where
  "user_paths_getJourneys wh store =
     filter (\<lambda>(sid, path_sequence). length path_sequence \<ge> 2)
       (map (\<lambda>(sid, rows).
               (sid, arrayCompact
                       (map (\<lambda>e. step_label_getJourneys (type e) (pathname e) (event_name e)) rows)))
          (group_by_session (scan_rows wh store)))"

text \<open>
  One condition of \<open>stepFilterConditions\<close> (lines 78--89) on a journey:
  \<open>match(journey[stepIndex], regex)\<close> for a pattern with a \<open>*\<close>, and
  \<open>journey[stepIndex] = path\<close> otherwise, with \<open>stepIndex = parseInt(step, 10) + 1\<close>. The
  quoted literals are taken to denote the strings they were built from.
\<close>

definition step_filter_condition :: "env \<Rightarrow> string \<times> string \<Rightarrow> string list \<Rightarrow> bool" where
  "step_filter_condition env f journey =
     (case parseInt (fst f) of
        None \<Rightarrow> False
      | Some n \<Rightarrow>
          if CHR ''*'' \<in> set (snd f)
          then regex_match env (snd f) (arrayElement [] journey (n + 1))
          else arrayElement [] journey (n + 1) = snd f)"

text \<open>
  The server rejects the query when a step index is \<open>NaN\<close> (not an integer) or 0 (arrays
  are 1-based); the handler then answers 500.
\<close>

definition step_filters_accepted :: "(string \<times> string) list \<Rightarrow> bool" where
  "step_filters_accepted fs = (\<forall>f \<in> set fs. parseInt (fst f) \<noteq> None \<and> parseInt (fst f) \<noteq> Some (- 1))"

text \<open>
  The CTE \<open>journey_segments\<close> (lines 130--139): the first \<open>maxSteps\<close> entries of every
  path, grouped and counted, filtered by \<open>HAVING\<close>, ordered by count descending, cut at
  \<open>journeyLimit\<close>. Groups come in the order of their first session, and the sort keeps
  that order among equal counts.
\<close>

definition journey_segments ::
  "env \<Rightarrow> (string \<times> string) list \<Rightarrow> nat \<Rightarrow> nat \<Rightarrow> (string \<times> string list) list
     \<Rightarrow> (string list \<times> nat) list" where
  "journey_segments env fs maxSteps journeyLimit ups =
     (let journeys = map (\<lambda>(sid, path_sequence). arraySlice path_sequence 1 maxSteps) ups;
          groups = map (\<lambda>j. (j, length (filter (\<lambda>x. x = j) journeys))) (remdups journeys);
          kept = filter (\<lambda>(j, c). \<forall>f \<in> set fs. step_filter_condition env f j) groups
      in take journeyLimit (sort_key (\<lambda>(j, c). - int c) kept))"

text \<open>\<open>SELECT count(DISTINCT session_id) FROM events WHERE ...\<close>.\<close>

definition count_distinct_sessions :: "(event \<Rightarrow> bool) \<Rightarrow> event list \<Rightarrow> nat" where
  "count_distinct_sessions wh store = length (remdups (map session_id (filter wh store)))"

text \<open>
  The final \<open>SELECT\<close> (lines 141--151) with the mapping of lines 163--167. The division is
  the exact quotient (the server's is in floating point); there is a row to divide for
  only when the scan has a session, so the divisor is not 0 then.
\<close>

definition journeys_rows ::
  "env \<Rightarrow> event list \<Rightarrow> int \<Rightarrow> nat \<Rightarrow> nat \<Rightarrow> bool \<Rightarrow> string list \<Rightarrow> (string \<times> string) list
     \<Rightarrow> journey list" where
  "journeys_rows env store siteId maxSteps journeyLimit includeEventsInJourney excludedEventNames fs =
     map (\<lambda>(j, sessions_count).
            \<lparr>path = j, count = sessions_count,
             percentage = of_nat (sessions_count * 100) /
                          of_nat (count_distinct_sessions (base_where env siteId) store)\<rparr>)
       (journey_segments env fs maxSteps journeyLimit
          (user_paths_getJourneys
             (path_where env siteId includeEventsInJourney excludedEventNames) store))"

text \<open>
  The handler (lines 7--173). The query throws, and the handler answers 500, when the
  database does not answer, when \<open>parseInt(siteId, 10)\<close> is \<open>NaN\<close>, or when a step index
  is rejected.
\<close>

definition getJourneys :: "env \<Rightarrow> event list \<Rightarrow> string \<Rightarrow> journeys_query \<Rightarrow> journey list reply" where
  "getJourneys env store siteId q =
     (let steps = (case jq_steps q of None \<Rightarrow> ''3'' | Some s \<Rightarrow> s);
          limit = (case jq_limit q of None \<Rightarrow> ''100'' | Some s \<Rightarrow> s);
          includeEvents = (case jq_includeEvents q of None \<Rightarrow> ''true'' | Some s \<Rightarrow> s);
          includeEventsInJourney = (includeEvents = ''true'' \<or> includeEvents = ''1'');
          excludedEventNames = parse_excludeEventNames env (jq_excludeEventNames q);
          maxSteps = parseInt steps;
          journeyLimit = parseInt limit
      in case maxSteps of
           None \<Rightarrow> Status400 ''Steps parameter must be a number between 2 and 10''
         | Some ms \<Rightarrow>
             if ms < 2 \<or> ms > 10
             then Status400 ''Steps parameter must be a number between 2 and 10''
             else (case journeyLimit of
                     None \<Rightarrow> Status400 ''Limit parameter must be a number between 1 and 500''
                   | Some jl \<Rightarrow>
                       if jl < 1 \<or> jl > 500
                       then Status400 ''Limit parameter must be a number between 1 and 500''
                       else (case (case jq_stepFilters q of
                                     None \<Rightarrow> JEntries []
                                   | Some s \<Rightarrow> if s = [] then JEntries [] else json_step_filters env s) of
                               JSyntaxError \<Rightarrow> Status400 ''Invalid stepFilters format''
                             | JBadShape \<Rightarrow> Status500 ''Failed to get journeys''
                             | JEntries fs \<Rightarrow>
                                 (case parseInt siteId of
                                    None \<Rightarrow> Status500 ''Failed to get journeys''
                                  | Some sid \<Rightarrow>
                                      if clickhouse_up env \<and> step_filters_accepted fs
                                      then Send (journeys_rows env store sid (nat ms) (nat jl)
                                                   includeEventsInJourney excludedEventNames fs)
                                      else Status500 ''Failed to get journeys''))))"

section \<open>getJourneyTransitionSessions\<close>

record transition_query =
  tq_source :: "string option"
  tq_target :: "string option"
  tq_sourceStep :: "string option"
  tq_targetStep :: "string option"
  tq_includeEvents :: "string option"
  tq_excludeEventNames :: "string option"
  tq_limit :: "string option"
  tq_page :: "string option"

text \<open>
  The CTE \<open>user_paths\<close> of the page query (lines 93--119): the compacted labels and,
  beside them, \<open>groupArray(timestamp)\<close>, which is not compacted.
\<close>

definition user_paths_transition ::
  "(event \<Rightarrow> bool) \<Rightarrow> event list \<Rightarrow> (string \<times> string list \<times> int list) list" where
  "user_paths_transition wh store =
     filter (\<lambda>(sid, path_sequence, timestamps). length path_sequence \<ge> 2)
       (map (\<lambda>(sid, rows).
               (sid,
                arrayCompact (map (\<lambda>e. stepLabelCase (type e) (pathname e) (event_name e)) rows),
                map timestamp rows))
          (group_by_session (scan_rows wh store)))"

text \<open>The CTE \<open>user_paths\<close> of the count query (lines 191--216).\<close>

definition user_paths_count ::
  "(event \<Rightarrow> bool) \<Rightarrow> event list \<Rightarrow> (string \<times> string list) list" where
  "user_paths_count wh store =
     filter (\<lambda>(sid, path_sequence). length path_sequence \<ge> 2)
       (map (\<lambda>(sid, rows).
               (sid, arrayCompact (map (\<lambda>e. stepLabelCase (type e) (pathname e) (event_name e)) rows)))
          (group_by_session (scan_rows wh store)))"

text \<open>
  The optional condition of lines 131--132 and 223--224: absent when the parameter is
  missing or empty (falsy), else \<open>index = parseInt(step, 10) + 1\<close>. For a parameter that is
  not a number the text reads \<open>= NaN\<close>, which no index equals.
\<close>

definition step_constraint :: "string option \<Rightarrow> nat \<Rightarrow> bool" where
  "step_constraint step idx =
     (case step of
        None \<Rightarrow> True
      | Some s \<Rightarrow>
          if s = [] then True
          else (case parseInt s of None \<Rightarrow> False | Some n \<Rightarrow> int idx = n + 1))"

text \<open>
  The \<open>WHERE\<close> clause of \<open>matching_sessions\<close> and of the count query, as it is written,
  for a function \<open>idx\<close> in the place of the name \<open>arrayIndexOf\<close>.
\<close>

definition transition_where ::
  "(string list \<Rightarrow> string \<Rightarrow> nat) \<Rightarrow> string \<Rightarrow> string \<Rightarrow> string option \<Rightarrow> string option
     \<Rightarrow> string list \<Rightarrow> bool" where
  "transition_where idx source target sourceStep targetStep path_sequence =
     (idx path_sequence source > 0 \<and>
      idx path_sequence target > 0 \<and>
      idx path_sequence source < idx path_sequence target \<and>
      step_constraint sourceStep (idx path_sequence source) \<and>
      step_constraint targetStep (idx path_sequence target))"

record matching_session =
  ms_session_id :: string
  source_index :: nat
  target_index :: nat
  transition_timestamp :: int

text \<open>The CTE \<open>matching_sessions\<close> (lines 120--133), in the same way.\<close>

definition matching_sessions ::
  "(string list \<Rightarrow> string \<Rightarrow> nat) \<Rightarrow> string \<Rightarrow> string \<Rightarrow> string option \<Rightarrow> string option
     \<Rightarrow> (string \<times> string list \<times> int list) list \<Rightarrow> matching_session list" where
  "matching_sessions idx source target sourceStep targetStep ups =
     map (\<lambda>(sid, path_sequence, timestamps).
            \<lparr>ms_session_id = sid,
             source_index = idx path_sequence source,
             target_index = idx path_sequence target,
             transition_timestamp =
               arrayElement 0 timestamps (int (idx path_sequence source))\<rparr>)
       (filter (\<lambda>(sid, path_sequence, timestamps).
                  transition_where idx source target sourceStep targetStep path_sequence) ups)"

text \<open>
  A row of the page query: the columns of \<open>matching_sessions\<close> and the summary of the
  session's joined events. Of the summary the columns computed from timestamps and types
  are kept; the \<open>argMax\<close>/\<open>argMin\<close> columns (user, geography, device, referrer, entry and
  exit page) are left out.
\<close>

record session_row = matching_session +
  session_start :: int
  session_end :: int
  session_duration :: int
  pageviews :: nat
  events :: nat

fun list_min :: "int \<Rightarrow> int list \<Rightarrow> int" where
  "list_min m [] = m"
| "list_min m (x # xs) = list_min (min m x) xs"

fun list_max :: "int \<Rightarrow> int list \<Rightarrow> int" where
  "list_max m [] = m"
| "list_max m (x # xs) = list_max (max m x) xs"

definition summarize :: "matching_session \<Rightarrow> event \<Rightarrow> event list \<Rightarrow> session_row" where
  "summarize m e es =
     (let lo = list_min (timestamp e) (map timestamp es);
          hi = list_max (timestamp e) (map timestamp es)
      in matching_session.extend m
           \<lparr>session_start = lo, session_end = hi, session_duration = hi - lo,
            pageviews = length (filter (\<lambda>x. type x = ''pageview'') (e # es)),
            events = length (filter (\<lambda>x. type x = ''custom_event'') (e # es))\<rparr>)"

text \<open>
  The page query (lines 134--169): \<open>matching_sessions\<close> joined with the events of the
  site in the time range (an inner join: a session with no such event gives no row), one
  row per session, \<open>ORDER BY transition_timestamp DESC LIMIT limit OFFSET offset\<close>. Rows
  with equal timestamps keep the order of \<open>matching_sessions\<close>.
\<close>

definition joined_rows ::
  "env \<Rightarrow> event list \<Rightarrow> int \<Rightarrow> matching_session list \<Rightarrow> session_row list" where
  "joined_rows env store siteId ms =
     concat (map (\<lambda>m.
               case filter (\<lambda>e. session_id e = ms_session_id m \<and> site_id e = siteId \<and>
                                 timeStatement env e) store of
                 [] \<Rightarrow> []
               | e # es \<Rightarrow> [summarize m e es]) ms)"

definition ranked_rows ::
  "env \<Rightarrow> event list \<Rightarrow> int \<Rightarrow> matching_session list \<Rightarrow> session_row list" where
  "ranked_rows env store siteId ms =
     sort_key (\<lambda>r. - transition_timestamp r) (joined_rows env store siteId ms)"

definition page_rows ::
  "env \<Rightarrow> event list \<Rightarrow> int \<Rightarrow> matching_session list \<Rightarrow> nat \<Rightarrow> nat \<Rightarrow> session_row list" where
  "page_rows env store siteId ms limit offset =
     take limit (drop offset (ranked_rows env store siteId ms))"

text \<open>
  The page query as the server runs it. It is refused when the database does not answer,
  when a parameter is not an \<open>Int32\<close> (\<open>parseInt(siteId, 10)\<close> or \<open>offset\<close> is \<open>NaN\<close>), and
  when a function name does not resolve, which is the case of \<open>arrayIndexOf\<close>. A negative
  \<open>offset\<close> is passed to the server as it is; the rows below take it as 0, which no
  answer depends on, since the query is refused before a row is read.
\<close>

definition page_query ::
  "env \<Rightarrow> event list \<Rightarrow> int option \<Rightarrow> bool \<Rightarrow> string list \<Rightarrow> string \<Rightarrow> string
     \<Rightarrow> string option \<Rightarrow> string option \<Rightarrow> int \<Rightarrow> int option
     \<Rightarrow> query_error + session_row list" where
  "page_query env store siteId includeEventsInJourney excludedEventNames source target
     sourceStep targetStep limit offset =
     (if \<not> clickhouse_up env then Inl NO_ANSWER
      else (case (siteId, offset) of
              (Some sid, Some off) \<Rightarrow>
                (case arrayIndexOf of
                   Inl e \<Rightarrow> Inl e
                 | Inr idx \<Rightarrow>
                     Inr (page_rows env store sid
                            (matching_sessions idx source target sourceStep targetStep
                               (user_paths_transition
                                  (path_where env sid includeEventsInJourney excludedEventNames)
                                  store))
                            (nat limit) (nat off)))
            | _ \<Rightarrow> Inl BAD_PARAMETER))"

text \<open>
  The count query (lines 190--225): \<open>count(DISTINCT session_id)\<close> of the kept paths, and
  the query as the server runs it.
\<close>

definition count_rows ::
  "(string list \<Rightarrow> string \<Rightarrow> nat) \<Rightarrow> string \<Rightarrow> string \<Rightarrow> string option \<Rightarrow> string option
     \<Rightarrow> (string \<times> string list) list \<Rightarrow> nat" where
  "count_rows idx source target sourceStep targetStep ups =
     length (remdups (map fst
       (filter (\<lambda>(sid, path_sequence).
                  transition_where idx source target sourceStep targetStep path_sequence) ups)))"

definition count_query ::
  "env \<Rightarrow> event list \<Rightarrow> int option \<Rightarrow> bool \<Rightarrow> string list \<Rightarrow> string \<Rightarrow> string
     \<Rightarrow> string option \<Rightarrow> string option \<Rightarrow> query_error + nat" where
  "count_query env store siteId includeEventsInJourney excludedEventNames source target
     sourceStep targetStep =
     (if \<not> clickhouse_up env then Inl NO_ANSWER
      else (case siteId of
              Some sid \<Rightarrow>
                (case arrayIndexOf of
                   Inl e \<Rightarrow> Inl e
                 | Inr idx \<Rightarrow>
                     Inr (count_rows idx source target sourceStep targetStep
                            (user_paths_count
                               (path_where env sid includeEventsInJourney excludedEventNames)
                               store)))
            | None \<Rightarrow> Inl BAD_PARAMETER))"

text \<open>
  Modelled from the spec: \<open>enrichWithTraits\<close> of \<open>utils/utils.js\<close>, which is not among
  the files. It attaches to every session the traits found for it and passes a session
  through unchanged (no traits) when the lookup finds nothing or fails.
\<close>

record enriched_session =
  session :: session_row
  traits :: "(string \<times> string) list"

definition enrichWithTraits :: "env \<Rightarrow> session_row list \<Rightarrow> enriched_session list" where
  "enrichWithTraits env sessions =
     map (\<lambda>r. \<lparr>session = r, traits = traits_of env (ms_session_id r)\<rparr>) sessions"

text \<open>The response: \<open>{ data, pagination: { total, page, limit, totalPages } }\<close>.\<close>

record pagination =
  total :: nat
  page :: "int option"
  limit :: int
  totalPages :: int

record transition_response =
  data :: "enriched_session list"
  pagination :: pagination

text \<open>
  The handler (lines 21--273). \<open>page\<close> is parsed and used in \<open>offset\<close> but never checked.
  A query that is refused throws, and the \<open>catch\<close> branch answers 500; as both queries
  call \<open>arrayIndexOf\<close>, that is the answer to every request that passes the checks on
  source, target and limit. \<open>processResults\<close> (also of \<open>utils/utils.js\<close>) is taken to
  return the rows of a result as they come; both queries read the same store.
\<close>

definition getJourneyTransitionSessions ::
  "env \<Rightarrow> event list \<Rightarrow> string \<Rightarrow> transition_query \<Rightarrow> transition_response reply" where
  "getJourneyTransitionSessions env store siteId q =
     (let includeEvents = (case tq_includeEvents q of None \<Rightarrow> ''true'' | Some s \<Rightarrow> s);
          limit = (case tq_limit q of None \<Rightarrow> ''50'' | Some s \<Rightarrow> s);
          page = (case tq_page q of None \<Rightarrow> ''1'' | Some s \<Rightarrow> s)
      in case (tq_source q, tq_target q) of
           (Some source, Some target) \<Rightarrow>
             if source = [] \<or> target = [] then Status400 ''source and target are required''
             else
               (let includeEventsInJourney = (includeEvents = ''true'' \<or> includeEvents = ''1'');
                    limitNum = parseInt limit;
                    pageNum = parseInt page;
                    offset = (case (pageNum, limitNum) of
                                (Some p, Some l) \<Rightarrow> Some ((p - 1) * l) | _ \<Rightarrow> None)
                in case limitNum of
                     None \<Rightarrow> Status400 ''limit must be between 1 and 200''
                   | Some l \<Rightarrow>
                       if l < 1 \<or> l > 200 then Status400 ''limit must be between 1 and 200''
                       else
                         (let excludedEventNames =
                                parse_excludeEventNames env (tq_excludeEventNames q)
                          in case page_query env store (parseInt siteId) includeEventsInJourney
                                    excludedEventNames source target
                                    (tq_sourceStep q) (tq_targetStep q) l offset of
                               Inl e \<Rightarrow> Status500 ''Failed to get journey transition sessions''
                             | Inr sessions \<Rightarrow>
                                 (case count_query env store (parseInt siteId)
                                         includeEventsInJourney excludedEventNames source target
                                         (tq_sourceStep q) (tq_targetStep q) of
                                    Inl e \<Rightarrow>
                                      Status500 ''Failed to get journey transition sessions''
                                  | Inr n \<Rightarrow>
                                      Send \<lparr>data = enrichWithTraits env sessions,
                                            pagination =
                                              \<lparr>total = n, page = pageNum, limit = l,
                                               totalPages =
                                                 \<lceil>(of_nat n :: rat) / of_int l\<rceil>\<rparr>\<rparr>)))
         | _ \<Rightarrow> Status400 ''source and target are required'')"

section \<open>getJourneyStepEventDetails\<close>














section \<open>Sessions and their collapsed paths\<close>

text \<open>
  The notions the properties are stated with, defined on the store directly and not
  through the queries: the events of one session among the scanned rows, in time order;
  its collapsed path under a labelling; the scan and the depth a request asks for.
\<close>

abbreviation journeys_label :: "event \<Rightarrow> string" where
  "journeys_label e \<equiv> step_label_getJourneys (type e) (pathname e) (event_name e)"

abbreviation transition_label :: "event \<Rightarrow> string" where
  "transition_label e \<equiv> stepLabelCase (type e) (pathname e) (event_name e)"

definition session_events :: "(event \<Rightarrow> bool) \<Rightarrow> event list \<Rightarrow> string \<Rightarrow> event list" where
  "session_events wh store sid =
     sort_key timestamp (filter (\<lambda>e. session_id e = sid \<and> wh e) store)"

definition collapsed_path ::
  "(event \<Rightarrow> string) \<Rightarrow> (event \<Rightarrow> bool) \<Rightarrow> event list \<Rightarrow> string \<Rightarrow> string list" where
  "collapsed_path label wh store sid = remdups_adj (map label (session_events wh store sid))"

definition journeys_scan :: "env \<Rightarrow> int \<Rightarrow> journeys_query \<Rightarrow> event \<Rightarrow> bool" where
  "journeys_scan env sid q =
     path_where env sid
       (jq_includeEvents q \<in> {None, Some ''true'', Some ''1''})
       (parse_excludeEventNames env (jq_excludeEventNames q))"

definition journeys_steps :: "journeys_query \<Rightarrow> int option" where
  "journeys_steps q = parseInt (case jq_steps q of None \<Rightarrow> ''3'' | Some s \<Rightarrow> s)"

section \<open>Small stores for the examples\<close>

text \<open>
  An environment with no time or filter restriction, and page views of site 1, used where
  a property is shown on a concrete store.
\<close>

definition demo_env :: env where
  "demo_env = \<lparr>timeStatement = (\<lambda>e. True), filterStatement = (\<lambda>e. True),
     json_string_array = (\<lambda>s. None), json_step_filters = (\<lambda>s. JSyntaxError),
     regex_match = (\<lambda>p s. False), clickhouse_up = True, traits_of = (\<lambda>s. []),
     json_keys_values_raw = (\<lambda>s. [])\<rparr>"

definition pageview_at :: "string \<Rightarrow> int \<Rightarrow> string \<Rightarrow> event" where
  "pageview_at sid t p =
     \<lparr>site_id = 1, session_id = sid, timestamp = t, type = ''pageview'', pathname = p,
      event_name = Some [], props = None, user_id = ''u'', identified_user_id = []\<rparr>"

definition default_journeys_query :: journeys_query where
  "default_journeys_query =
     \<lparr>jq_steps = None, jq_limit = None, jq_stepFilters = None, jq_includeEvents = None,
      jq_excludeEventNames = None\<rparr>"

definition store_two_sessions :: "event list" where
  "store_two_sessions =
     [pageview_at ''s1'' 1 ''/a'', pageview_at ''s2'' 1 ''/a'', pageview_at ''s1'' 2 ''/b'']"

section \<open>Transitions, stated on the store\<close>

text \<open>The 1-based position of the first occurrence of a label in a path; 0 when it is absent.\<close>

definition first_occurrence :: "'a list \<Rightarrow> 'a \<Rightarrow> nat" where
  "first_occurrence xs x =
     (if x \<in> set xs then Suc (length (takeWhile (\<lambda>y. y \<noteq> x) xs)) else 0)"

text \<open>
  The 0-based position a \<open>sourceStep\<close>/\<open>targetStep\<close> parameter asks for (none when the
  parameter is missing or empty), and the condition that a given parameter is a number.
\<close>

definition requested_step :: "string option \<Rightarrow> int option" where
  "requested_step step =
     (case step of None \<Rightarrow> None | Some s \<Rightarrow> if s = [] then None else parseInt s)"

definition numeric_if_given :: "string option \<Rightarrow> bool" where
  "numeric_if_given step = (case step of None \<Rightarrow> True | Some s \<Rightarrow> s = [] \<or> parseInt s \<noteq> None)"

text \<open>
  A transition occurs in a path, in the words of the spec: both labels are present, the
  first occurrence of the source is strictly before that of the target, and each
  constrained label first occurs at its 0-based position plus one.
\<close>

definition transition_occurs ::
  "string \<Rightarrow> string \<Rightarrow> int option \<Rightarrow> int option \<Rightarrow> string list \<Rightarrow> bool" where
  "transition_occurs source target sourceStep targetStep p =
     (0 < first_occurrence p source \<and> 0 < first_occurrence p target \<and>
      first_occurrence p source < first_occurrence p target \<and>
      (case sourceStep of None \<Rightarrow> True | Some n \<Rightarrow> int (first_occurrence p source) = n + 1) \<and>
      (case targetStep of None \<Rightarrow> True | Some n \<Rightarrow> int (first_occurrence p target) = n + 1))"

text \<open>
  The scan, limit and page of a transition request, and the set of sessions that qualify
  for it: those in whose collapsed path the transition occurs.
\<close>

definition transition_scan :: "env \<Rightarrow> int \<Rightarrow> transition_query \<Rightarrow> event \<Rightarrow> bool" where
  "transition_scan env sid q =
     path_where env sid
       (tq_includeEvents q \<in> {None, Some ''true'', Some ''1''})
       (parse_excludeEventNames env (tq_excludeEventNames q))"

definition transition_limit :: "transition_query \<Rightarrow> int option" where
  "transition_limit q = parseInt (case tq_limit q of None \<Rightarrow> ''50'' | Some s \<Rightarrow> s)"

definition transition_page :: "transition_query \<Rightarrow> int option" where
  "transition_page q = parseInt (case tq_page q of None \<Rightarrow> ''1'' | Some s \<Rightarrow> s)"

definition qualifying_sessions :: "env \<Rightarrow> event list \<Rightarrow> int \<Rightarrow> transition_query \<Rightarrow> string set" where
  "qualifying_sessions env store sid q =
     (case (tq_source q, tq_target q) of
        (Some source, Some target) \<Rightarrow>
          {s. transition_occurs source target
                (requested_step (tq_sourceStep q)) (requested_step (tq_targetStep q))
                (collapsed_path transition_label (transition_scan env sid q) store s)}
      | _ \<Rightarrow> {})"

section \<open>More stores and requests for the examples\<close>

definition store_a_then_b :: "event list" where
  "store_a_then_b = [pageview_at ''s1'' 1 ''/a'', pageview_at ''s1'' 2 ''/b'']"

definition store_repeat_before_source :: "event list" where
  "store_repeat_before_source =
     [pageview_at ''s1'' 1 ''/x'', pageview_at ''s1'' 2 ''/x'', pageview_at ''s1'' 3 ''/a'',
      pageview_at ''s1'' 4 ''/b'']"

definition query_a_to_b :: transition_query where
  "query_a_to_b =
     \<lparr>tq_source = Some ''/a'', tq_target = Some ''/b'', tq_sourceStep = None,
      tq_targetStep = None, tq_includeEvents = None, tq_excludeEventNames = None,
      tq_limit = None, tq_page = None\<rparr>"

definition store_three_transitions :: "event list" where
  "store_three_transitions =
     [pageview_at ''s1'' 1 ''/a'', pageview_at ''s1'' 2 ''/b'',
      pageview_at ''s2'' 3 ''/a'', pageview_at ''s2'' 4 ''/b'',
      pageview_at ''s3'' 5 ''/a'', pageview_at ''s3'' 6 ''/b'',
      pageview_at ''s4'' 7 ''/a'']"

section \<open>Step details, stated on the store\<close>










text \<open>
  A store of \<open>n\<close> sessions, each visiting \<open>/a\<close> and then \<open>/b\<close>, and the request for page 2
  with limit 50.
\<close>

definition session_name :: "nat \<Rightarrow> string" where
  "session_name i = CHR ''s'' # replicate i CHR ''x''"

definition visit_a_then_b :: "nat \<Rightarrow> event list" where
  "visit_a_then_b i =
     [pageview_at (session_name i) (2 * int i) ''/a'',
      pageview_at (session_name i) (2 * int i + 1) ''/b'']"

definition store_sessions :: "nat \<Rightarrow> event list" where
  "store_sessions n = concat (map visit_a_then_b [0..<n])"

definition query_page_two_of_fifty :: transition_query where
  "query_page_two_of_fifty = query_a_to_b\<lparr>tq_limit := Some ''50'', tq_page := Some ''2''\<rparr>"

section \<open>Properties of the shared primitives\<close>

lemma compact_from_remdups_adj: "x # compact_from x xs = remdups_adj (x # xs)"
  by (induction xs arbitrary: x) auto

lemma arrayCompact_remdups_adj: "arrayCompact xs = remdups_adj xs"
  by (cases xs) (simp_all add: arrayCompact_def compact_from_remdups_adj)

lemma insort_key_pair_const:
  "\<forall>e \<in> set ys. f e = k \<Longrightarrow> f x = k \<Longrightarrow>
     insort_key (\<lambda>e. (f e, g e)) x ys = insort_key g x ys"
  by (induction ys) auto

lemma sort_key_pair_const:
  "\<forall>e \<in> set xs. f e = k \<Longrightarrow> sort_key (\<lambda>e. (f e, g e)) xs = sort_key g xs"
proof (induction xs)
  case Nil
  then show ?case by simp
next
  case (Cons x xs)
  then have a: "\<forall>e \<in> set (sort_key g xs). f e = k" and b: "f x = k" by simp_all
  from Cons have "sort_key (\<lambda>e. (f e, g e)) xs = sort_key g xs" by simp
  then show ?case using insort_key_pair_const[OF a b, of g] by simp
qed

lemma scan_rows_session:
  "filter (\<lambda>e. session_id e = sid) (scan_rows wh store) = session_events wh store sid"
proof -
  have "filter (\<lambda>e. session_id e = sid) (scan_rows wh store)
        = sort_key (\<lambda>e. (session_id e, timestamp e)) (filter (\<lambda>e. session_id e = sid) (filter wh store))"
    by (simp add: scan_rows_def filter_sort)
  also have "\<dots> = sort_key timestamp (filter (\<lambda>e. session_id e = sid) (filter wh store))"
    by (rule sort_key_pair_const[where k = sid]) simp
  finally show ?thesis by (simp add: session_events_def conj_commute)
qed

lemma group_by_session_mem:
  "(sid, rows) \<in> set (group_by_session (scan_rows wh store)) \<longleftrightarrow>
     (\<exists>e \<in> set store. wh e \<and> session_id e = sid) \<and> rows = session_events wh store sid"
  by (auto simp: group_by_session_def scan_rows_session) (auto simp: scan_rows_def)

lemma distinct_group_by_session: "distinct (map fst (group_by_session rows))"
  by (simp add: group_by_session_def comp_def)

lemma session_events_nonempty:
  "session_events wh store sid \<noteq> [] \<longleftrightarrow> (\<exists>e \<in> set store. wh e \<and> session_id e = sid)"
proof -
  have "session_events wh store sid \<noteq> [] \<longleftrightarrow> set (session_events wh store sid) \<noteq> {}"
    by simp
  also have "\<dots> \<longleftrightarrow> (\<exists>e \<in> set store. wh e \<and> session_id e = sid)"
    unfolding session_events_def by auto
  finally show ?thesis .
qed

lemma user_paths_getJourneys_mem:
  "(sid, p) \<in> set (user_paths_getJourneys wh store) \<longleftrightarrow>
     p = collapsed_path journeys_label wh store sid \<and> 2 \<le> length p"
proof -
  let ?lab = "\<lambda>rows. arrayCompact (map journeys_label rows)"
  have "(sid, p) \<in> set (user_paths_getJourneys wh store) \<longleftrightarrow>
        (\<exists>rows. (sid, rows) \<in> set (group_by_session (scan_rows wh store)) \<and> p = ?lab rows) \<and> 2 \<le> length p"
    unfolding user_paths_getJourneys_def by force
  also have "\<dots> \<longleftrightarrow> (\<exists>e \<in> set store. wh e \<and> session_id e = sid) \<and>
      p = collapsed_path journeys_label wh store sid \<and> 2 \<le> length p"
    by (auto simp: group_by_session_mem collapsed_path_def arrayCompact_remdups_adj)
  also have "\<dots> \<longleftrightarrow> p = collapsed_path journeys_label wh store sid \<and> 2 \<le> length p"
    using session_events_nonempty[of wh store sid] by (auto simp: collapsed_path_def)
  finally show ?thesis .
qed

lemma distinct_user_paths_getJourneys: "distinct (map fst (user_paths_getJourneys wh store))"
proof -
  let ?g = "group_by_session (scan_rows wh store)"
  let ?f = "\<lambda>(sid, rows). (sid, arrayCompact (map journeys_label rows))"
  have "map fst (map ?f ?g) = map fst ?g" by (induction ?g) auto
  then have "distinct (map fst (map ?f ?g))" using distinct_group_by_session[of "scan_rows wh store"] by metis
  then show ?thesis unfolding user_paths_getJourneys_def by (rule distinct_map_filter)
qed

lemma journey_segments_mem:
  assumes "(j, c) \<in> set (journey_segments env fs ms jl ups)"
  shows "c = length (filter (\<lambda>(sid, p). take ms p = j) ups) \<and>
         (\<exists>(sid, p) \<in> set ups. take ms p = j)"
proof -
  let ?js = "map (\<lambda>(sid, p). arraySlice p 1 ms) ups"
  from assms have "(j, c) \<in> set (filter (\<lambda>(j, c). \<forall>f \<in> set fs. step_filter_condition env f j)
                   (map (\<lambda>j. (j, length (filter (\<lambda>x. x = j) ?js))) (remdups ?js)))"
    unfolding journey_segments_def Let_def by (auto dest!: in_set_takeD)
  then have a: "j \<in> set ?js" and b: "c = length (filter (\<lambda>x. x = j) ?js)"
    by auto
  have "length (filter (\<lambda>x. x = j) ?js) = length (filter (\<lambda>(sid, p). take ms p = j) ups)"
    by (induction ups) (auto simp: arraySlice_def)
  with a b show ?thesis by (auto simp: arraySlice_def)
qed

lemma count_distinct_sessions_card:
  "count_distinct_sessions wh store = card (session_id ` {e \<in> set store. wh e})"
proof -
  have "set (map session_id (filter wh store)) = session_id ` {e \<in> set store. wh e}" by auto
  then show ?thesis
    unfolding count_distinct_sessions_def by (metis length_remdups_card_conv)
qed

lemma getJourneys_Send:
  assumes "getJourneys env store siteId q = Send js"
  shows "\<exists>ms jl sid fs. journeys_steps q = Some ms \<and> 2 \<le> ms \<and> ms \<le> 10 \<and> parseInt siteId = Some sid \<and>
           js = map (\<lambda>(j, c). \<lparr>path = j, count = c,
                       percentage = of_nat (c * 100) /
                          of_nat (count_distinct_sessions (base_where env sid) store)\<rparr>)
                  (journey_segments env fs (nat ms) jl
                     (user_paths_getJourneys (journeys_scan env sid q) store))"
  using assms
  unfolding getJourneys_def journeys_steps_def journeys_scan_def journeys_rows_def Let_def
  by (auto split: option.splits if_splits step_filters_json.splits)

lemma getJourneys_journey:
  assumes "getJourneys env store siteId q = Send js" and "j \<in> set js"
  shows "\<exists>ms sid. journeys_steps q = Some ms \<and> 2 \<le> ms \<and> ms \<le> 10 \<and> parseInt siteId = Some sid \<and>
           percentage j = of_nat (count j * 100) /
                          of_nat (card (session_id ` {e \<in> set store. base_where env sid e})) \<and>
           count j = card {s. 2 \<le> length (collapsed_path journeys_label (journeys_scan env sid q) store s) \<and>
                              take (nat ms) (collapsed_path journeys_label (journeys_scan env sid q) store s) = path j} \<and>
           (\<exists>s. 2 \<le> length (collapsed_path journeys_label (journeys_scan env sid q) store s) \<and>
                 take (nat ms) (collapsed_path journeys_label (journeys_scan env sid q) store s) = path j)"
proof -
  from getJourneys_Send[OF assms(1)] obtain ms jl sid fs where
    ms: "journeys_steps q = Some ms" "2 \<le> ms" "ms \<le> 10" and sid: "parseInt siteId = Some sid" and
    js: "js = map (\<lambda>(j, c). \<lparr>path = j, count = c,
                       percentage = of_nat (c * 100) /
                          of_nat (count_distinct_sessions (base_where env sid) store)\<rparr>)
                  (journey_segments env fs (nat ms) jl
                     (user_paths_getJourneys (journeys_scan env sid q) store))"
    by blast
  let ?ups = "user_paths_getJourneys (journeys_scan env sid q) store"
  let ?cp = "collapsed_path journeys_label (journeys_scan env sid q) store"
  from assms(2) js obtain jp c where
    jc: "(jp, c) \<in> set (journey_segments env fs (nat ms) jl ?ups)" and
    j: "j = \<lparr>path = jp, count = c, percentage = of_nat (c * 100) /
                          of_nat (count_distinct_sessions (base_where env sid) store)\<rparr>"
    by auto
  from journey_segments_mem[OF jc] have
    c: "c = length (filter (\<lambda>(s, p). take (nat ms) p = jp) ?ups)" and
    ex: "\<exists>(s, p) \<in> set ?ups. take (nat ms) p = jp" by auto
  let ?sel = "filter (\<lambda>(s, p). take (nat ms) p = jp) ?ups"
  have d: "distinct (map fst ?sel)"
    using distinct_user_paths_getJourneys by (rule distinct_map_filter)
  have st: "set (map fst ?sel) = {s. 2 \<le> length (?cp s) \<and> take (nat ms) (?cp s) = jp}"
    by (auto simp: user_paths_getJourneys_mem image_iff)
  have "card {s. 2 \<le> length (?cp s) \<and> take (nat ms) (?cp s) = jp} = length (map fst ?sel)"
    using distinct_card[OF d] unfolding st .
  with c have cnt: "c = card {s. 2 \<le> length (?cp s) \<and> take (nat ms) (?cp s) = jp}" by simp
  from ex have ex': "\<exists>s. 2 \<le> length (?cp s) \<and> take (nat ms) (?cp s) = jp"
    by (auto simp: user_paths_getJourneys_mem)
  show ?thesis
    using ms sid cnt ex' by (simp add: j count_distinct_sessions_card)
qed

section \<open>The three step labellers\<close>

text \<open>
  C1. The spec requires the label of an event to be the same string in the journey
  aggregation, the transition finder and the step-detail lookup. The transition finder
  and the step-detail lookup agree everywhere, but on the page view of
  \<open>/asset/draft/123\<close> getJourneys.ts labels the step \<open>/asset\<close> and the other two label it
  \<open>/asset/draft\<close>; on \<open>/blog/post\<close> they give \<open>/blog\<close> and \<open>/blog/post\<close>.
\<close>

theorem C1_step_labels_differ:
  "step_label_getJourneys ''pageview'' ''/asset/draft/123'' (Some []) = ''/asset'' \<and>
   stepLabelCase ''pageview'' ''/asset/draft/123'' (Some []) = ''/asset/draft'' \<and>
   step_label_getJourneyStepEventDetails ''pageview'' ''/asset/draft/123'' (Some []) = ''/asset/draft'' \<and>
   step_label_getJourneys ''pageview'' ''/blog/post'' (Some []) = ''/blog'' \<and>
   stepLabelCase ''pageview'' ''/blog/post'' (Some []) = ''/blog/post'' \<and>
   stepLabelCase = step_label_getJourneyStepEventDetails"
proof -
  have "stepLabelCase = step_label_getJourneyStepEventDetails"
    by (intro ext) (simp add: stepLabelCase_def step_label_getJourneyStepEventDetails_def)
  moreover have "step_label_getJourneys ''pageview'' ''/asset/draft/123'' (Some []) = ''/asset''"
    by (simp add: step_label_getJourneys_def first_segment_def arrayElement_def)
  moreover have "step_label_getJourneys ''pageview'' ''/blog/post'' (Some []) = ''/blog''"
    by (simp add: step_label_getJourneys_def first_segment_def arrayElement_def)
  moreover have "stepLabelCase ''pageview'' ''/asset/draft/123'' (Some []) = ''/asset/draft''"
    by (simp add: stepLabelCase_def draft_prefix_def startsWith_def)
  moreover have "step_label_getJourneyStepEventDetails ''pageview'' ''/asset/draft/123'' (Some [])
                   = ''/asset/draft''"
    by (simp add: step_label_getJourneyStepEventDetails_def draft_prefix_def startsWith_def)
  moreover have "stepLabelCase ''pageview'' ''/blog/post'' (Some []) = ''/blog/post''"
    by (simp add: stepLabelCase_def draft_prefix_def startsWith_def)
  ultimately show ?thesis by blast
qed

lemma demo_getJourneys:
  "getJourneys demo_env store_two_sessions ''1'' default_journeys_query
     = Send [\<lparr>path = [''/a'', ''/b''], count = 1, percentage = 50\<rparr>]"
  by code_simp

section \<open>getJourneys: percentages, lengths\<close>

text \<open>
  C4. Every journey of a response has \<open>percentage = 100 * count / D\<close>, where \<open>D\<close> is the
  number of distinct sessions with an event meeting the site, time and filter condition
  only: no condition on the event type or on the length of the path enters \<open>D\<close>, so
  sessions with fewer than two collapsed steps count in it. (\<open>D\<close> is positive whenever a
  journey is returned.)
\<close>

theorem C4_percentage_of_all_sessions:
  assumes "getJourneys env store siteId q = Send js" and "j \<in> set js"
  shows "\<exists>sid. parseInt siteId = Some sid \<and>
           0 < card (session_id ` {e \<in> set store. base_where env sid e}) \<and>
           percentage j = 100 * of_nat (count j) /
                          of_nat (card (session_id ` {e \<in> set store. base_where env sid e}))"
proof -
  from getJourneys_journey[OF assms] obtain ms sid where
    sid: "parseInt siteId = Some sid" and
    pc: "percentage j = of_nat (count j * 100) /
                          of_nat (card (session_id ` {e \<in> set store. base_where env sid e}))" and
    ex: "\<exists>s. 2 \<le> length (collapsed_path journeys_label (journeys_scan env sid q) store s)"
    by blast
  from ex obtain s where "collapsed_path journeys_label (journeys_scan env sid q) store s \<noteq> []"
    by fastforce
  then have "session_events (journeys_scan env sid q) store s \<noteq> []"
    by (auto simp: collapsed_path_def)
  then obtain e where e: "e \<in> set store" "journeys_scan env sid q e"
    by (auto simp: session_events_nonempty)
  then have "base_where env sid e" by (simp add: journeys_scan_def path_where_def)
  with e have "session_id e \<in> session_id ` {e \<in> set store. base_where env sid e}" by blast
  moreover have "finite (session_id ` {e \<in> set store. base_where env sid e})" by simp
  ultimately have "0 < card (session_id ` {e \<in> set store. base_where env sid e})"
    using card_gt_0_iff by blast
  with sid pc show ?thesis by (simp add: mult.commute)
qed

text \<open>
  On the store with sessions \<open>s1\<close> (\<open>/a\<close> then \<open>/b\<close>) and \<open>s2\<close> (\<open>/a\<close> only) the one journey
  has count 1 and percentage 50: \<open>s2\<close>, whose path has a single step, is in the divisor.
\<close>

theorem C4_percentage_witness:
  "getJourneys demo_env store_two_sessions ''1'' default_journeys_query
     = Send [\<lparr>path = [''/a'', ''/b''], count = 1, percentage = 50\<rparr>] \<and>
   (50::rat) = 100 * of_nat 1 /
      of_nat (card (session_id ` {e \<in> set store_two_sessions. base_where demo_env 1 e})) \<and>
   card (session_id ` {e \<in> set store_two_sessions. base_where demo_env 1 e}) = 2 \<and>
   collapsed_path journeys_label (journeys_scan demo_env 1 default_journeys_query)
     store_two_sessions ''s2'' = [''/a'']"
proof -
  have p: "parseInt ''1'' = Some 1"
    by (simp add: parseInt_def isWhiteSpace_def isDigit_def digitValue_def)
  from C4_percentage_of_all_sessions[OF demo_getJourneys, of "\<lparr>path = [''/a'', ''/b''], count = 1, percentage = 50\<rparr>"]
  have a: "(50::rat) = 100 * of_nat 1 /
      of_nat (card (session_id ` {e \<in> set store_two_sessions. base_where demo_env 1 e}))"
    by (simp add: p)
  have "count_distinct_sessions (base_where demo_env 1) store_two_sessions = 2"
    by code_simp
  then have b: "card (session_id ` {e \<in> set store_two_sessions. base_where demo_env 1 e}) = 2"
    by (simp add: count_distinct_sessions_card)
  have c: "collapsed_path journeys_label (journeys_scan demo_env 1 default_journeys_query)
     store_two_sessions ''s2'' = [''/a'']"
    by code_simp
  from a b c demo_getJourneys show ?thesis by blast
qed


text \<open>
  C10. When a request is answered with journeys, \<open>steps\<close> was accepted in the range 2 to 10
  and every journey's path has at least 2 and at most \<open>steps\<close> entries: it is the first
  \<open>steps\<close> entries of the collapsed path of a session whose full collapsed path has at
  least 2 entries.
\<close>

theorem C10_journey_length_bounds:
  assumes "getJourneys env store siteId q = Send js" and "j \<in> set js"
  shows "\<exists>steps sid. journeys_steps q = Some steps \<and> 2 \<le> steps \<and> steps \<le> 10 \<and>
           parseInt siteId = Some sid \<and>
           2 \<le> length (path j) \<and> int (length (path j)) \<le> steps \<and>
           (\<exists>s. 2 \<le> length (collapsed_path journeys_label (journeys_scan env sid q) store s) \<and>
                path j = take (nat steps)
                           (collapsed_path journeys_label (journeys_scan env sid q) store s))"
proof -
  from getJourneys_journey[OF assms] obtain ms sid s where
    ms: "journeys_steps q = Some ms" "2 \<le> ms" "ms \<le> 10" and
    sid: "parseInt siteId = Some sid" and
    s: "2 \<le> length (collapsed_path journeys_label (journeys_scan env sid q) store s)"
       "take (nat ms) (collapsed_path journeys_label (journeys_scan env sid q) store s) = path j"
    by blast
  have "length (take (nat ms) (collapsed_path journeys_label (journeys_scan env sid q) store s)) =
      min (length (collapsed_path journeys_label (journeys_scan env sid q) store s)) (nat ms)"
    by simp
  with s ms have l: "2 \<le> length (path j)" "int (length (path j)) \<le> ms" by auto
  have "\<exists>s. 2 \<le> length (collapsed_path journeys_label (journeys_scan env sid q) store s) \<and>
            path j = take (nat ms) (collapsed_path journeys_label (journeys_scan env sid q) store s)"
    using s by (intro exI[of _ s]) simp
  with ms sid l show ?thesis by blast
qed

theorem C10_journey_length_witness:
  "getJourneys demo_env store_two_sessions ''1'' default_journeys_query
     = Send [\<lparr>path = [''/a'', ''/b''], count = 1, percentage = 50\<rparr>] \<and>
   journeys_steps default_journeys_query = Some 3 \<and>
   2 \<le> length [''/a'', ''/b''] \<and> int (length [''/a'', ''/b'']) \<le> 3 \<and>
   (\<exists>s. path \<lparr>path = [''/a'', ''/b''], count = 1, percentage = 50\<rparr> = take (nat 3)
      (collapsed_path journeys_label (journeys_scan demo_env 1 default_journeys_query)
         store_two_sessions s))"
proof -
  have p: "parseInt ''1'' = Some 1"
    by (simp add: parseInt_def isWhiteSpace_def isDigit_def digitValue_def)
  have st: "journeys_steps default_journeys_query = Some 3"
    by (simp add: journeys_steps_def default_journeys_query_def parseInt_def isWhiteSpace_def
        isDigit_def digitValue_def)
  from C10_journey_length_bounds[OF demo_getJourneys,
      of "\<lparr>path = [''/a'', ''/b''], count = 1, percentage = 50\<rparr>"]
  show ?thesis using demo_getJourneys by (auto simp: p st)
qed

section \<open>The Session Path Builder\<close>

lemma remdups_adj_run:
  "zs = [] \<or> hd zs \<noteq> x \<Longrightarrow> remdups_adj (replicate (Suc n) x @ zs) = x # remdups_adj zs"
proof (induction n)
  case 0
  then show ?case by (cases zs) auto
next
  case (Suc n)
  then show ?case by simp
qed

lemma remdups_adj_runs:
  "distinct_adj (map fst runs) \<Longrightarrow>
     remdups_adj (concat (map (\<lambda>(x, n). replicate (Suc n) x) runs)) = map fst runs"
proof (induction runs)
  case Nil
  then show ?case by simp
next
  case (Cons r runs)
  obtain x n where r: "r = (x, n)" by (cases r)
  let ?zs = "concat (map (\<lambda>(x, n). replicate (Suc n) x) runs)"
  from Cons.prems r have "runs = [] \<or> fst (hd runs) \<noteq> x" and d: "distinct_adj (map fst runs)"
    by (auto simp: distinct_adj_Cons hd_map)
  then have "?zs = [] \<or> hd ?zs \<noteq> x"
    by (cases runs) (auto simp: case_prod_unfold)
  then have "remdups_adj (replicate (Suc n) x @ ?zs) = x # remdups_adj ?zs"
    by (rule remdups_adj_run)
  with Cons.IH[OF d] r show ?case by simp
qed

lemma user_paths_transition_mem:
  "(sid, p, ts) \<in> set (user_paths_transition wh store) \<longleftrightarrow>
     p = collapsed_path transition_label wh store sid \<and>
     ts = map timestamp (session_events wh store sid) \<and> 2 \<le> length p"
proof -
  let ?lab = "\<lambda>rows. arrayCompact (map transition_label rows)"
  have "(sid, p, ts) \<in> set (user_paths_transition wh store) \<longleftrightarrow>
        (\<exists>rows. (sid, rows) \<in> set (group_by_session (scan_rows wh store)) \<and> p = ?lab rows \<and>
                ts = map timestamp rows) \<and> 2 \<le> length p"
    unfolding user_paths_transition_def by force
  also have "\<dots> \<longleftrightarrow> (\<exists>e \<in> set store. wh e \<and> session_id e = sid) \<and>
      p = collapsed_path transition_label wh store sid \<and>
      ts = map timestamp (session_events wh store sid) \<and> 2 \<le> length p"
    by (auto simp: group_by_session_mem collapsed_path_def arrayCompact_remdups_adj)
  also have "\<dots> \<longleftrightarrow> p = collapsed_path transition_label wh store sid \<and>
      ts = map timestamp (session_events wh store sid) \<and> 2 \<le> length p"
    using session_events_nonempty[of wh store sid] by (auto simp: collapsed_path_def)
  finally show ?thesis .
qed

lemma user_paths_count_mem:
  "(sid, p) \<in> set (user_paths_count wh store) \<longleftrightarrow>
     p = collapsed_path transition_label wh store sid \<and> 2 \<le> length p"
proof -
  let ?lab = "\<lambda>rows. arrayCompact (map transition_label rows)"
  have "(sid, p) \<in> set (user_paths_count wh store) \<longleftrightarrow>
        (\<exists>rows. (sid, rows) \<in> set (group_by_session (scan_rows wh store)) \<and> p = ?lab rows) \<and>
        2 \<le> length p"
    unfolding user_paths_count_def by force
  also have "\<dots> \<longleftrightarrow> (\<exists>e \<in> set store. wh e \<and> session_id e = sid) \<and>
      p = collapsed_path transition_label wh store sid \<and> 2 \<le> length p"
    by (auto simp: group_by_session_mem collapsed_path_def arrayCompact_remdups_adj)
  also have "\<dots> \<longleftrightarrow> p = collapsed_path transition_label wh store sid \<and> 2 \<le> length p"
    using session_events_nonempty[of wh store sid] by (auto simp: collapsed_path_def)
  finally show ?thesis .
qed

text \<open>
  C6. The path of a session is its label sequence with every run of consecutive equal
  labels collapsed to one entry: a sequence made of runs whose neighbouring labels differ
  collapses to the list of those labels (so a label that comes back after another one
  stays), \<open>[a,a,b,c,c,c]\<close> gives \<open>[a,b,c]\<close>, no two neighbours of a collapsed path are
  equal, and the path that \<open>user_paths\<close> holds for a session, in getJourneys and in
  getJourneyTransitionSessions, is the collapse of the labels of the session's scanned
  events in time order.
\<close>

theorem C6_consecutive_duplicates_collapse:
  "(distinct_adj (map fst runs) \<longrightarrow>
      arrayCompact (concat (map (\<lambda>(x, n). replicate (Suc n) x) runs)) = map fst runs) \<and>
   (a \<noteq> b \<and> b \<noteq> c \<longrightarrow> arrayCompact [a, a, b, c, c, c] = [a, b, c]) \<and>
   distinct_adj (arrayCompact xs) \<and>
   ((sid, p) \<in> set (user_paths_getJourneys wh store) \<longrightarrow>
      p = arrayCompact (map journeys_label (session_events wh store sid))) \<and>
   ((sid, p', ts) \<in> set (user_paths_transition wh store) \<longrightarrow>
      p' = arrayCompact (map transition_label (session_events wh store sid)))"
proof (intro conjI impI)
  assume "distinct_adj (map fst runs)"
  then show "arrayCompact (concat (map (\<lambda>(x, n). replicate (Suc n) x) runs)) = map fst runs"
    unfolding arrayCompact_remdups_adj by (rule remdups_adj_runs)
next
  assume "a \<noteq> b \<and> b \<noteq> c"
  then show "arrayCompact [a, a, b, c, c, c] = [a, b, c]"
    by (auto simp: arrayCompact_def)
next
  show "distinct_adj (arrayCompact xs)"
    by (simp add: arrayCompact_remdups_adj)
next
  assume "(sid, p) \<in> set (user_paths_getJourneys wh store)"
  then show "p = arrayCompact (map journeys_label (session_events wh store sid))"
    by (simp add: user_paths_getJourneys_mem collapsed_path_def arrayCompact_remdups_adj)
next
  assume "(sid, p', ts) \<in> set (user_paths_transition wh store)"
  then show "p' = arrayCompact (map transition_label (session_events wh store sid))"
    by (simp add: user_paths_transition_mem collapsed_path_def arrayCompact_remdups_adj)
qed


theorem C6_collapse_witness:
  "arrayCompact (concat (map (\<lambda>(x, n). replicate (Suc n) x)
       [(''/a'', Suc 0), (''/b'', 0), (''/a'', 2)]))
     = map fst [(''/a'', Suc 0), (''/b'', 0), (''/a'', 2)] \<and>
   arrayCompact [''a'', ''a'', ''b'', ''c'', ''c'', ''c''] = [''a'', ''b'', ''c''] \<and>
   (''s1'', [''/a'', ''/b'']) \<in> set (user_paths_getJourneys (path_where demo_env 1 True [])
                                        store_two_sessions) \<and>
   (''s1'', [''/a'', ''/b''], [1, 2]) \<in> set (user_paths_transition (path_where demo_env 1 True [])
                                                store_two_sessions) \<and>
   [''/a'', ''/b''] = arrayCompact (map journeys_label
       (session_events (path_where demo_env 1 True []) store_two_sessions ''s1'')) \<and>
   [''/a'', ''/b''] = arrayCompact (map transition_label
       (session_events (path_where demo_env 1 True []) store_two_sessions ''s1''))"
proof -
  have m1: "(''s1'', [''/a'', ''/b'']) \<in> set (user_paths_getJourneys (path_where demo_env 1 True [])
                                        store_two_sessions)"
    by code_simp
  have m2: "(''s1'', [''/a'', ''/b''], [1, 2]) \<in> set (user_paths_transition
              (path_where demo_env 1 True []) store_two_sessions)"
    by code_simp
  have d: "distinct_adj (map fst [(''/a'', Suc 0), (''/b'', 0 :: nat), (''/a'', 2)])"
    by simp
  have n: "''a'' \<noteq> ''b'' \<and> ''b'' \<noteq> ''c''" by simp
  from C6_consecutive_duplicates_collapse[of "[(''/a'', Suc 0), (''/b'', 0), (''/a'', 2)]"
      "''a''" "''b''" "''c''" "[]" "''s1''" "[''/a'', ''/b'']" "path_where demo_env 1 True []"
      store_two_sessions "[''/a'', ''/b'']" "[1, 2]"] m1 m2 d n
  show ?thesis by blast
qed

section \<open>getJourneyTransitionSessions: both queries are refused\<close>

text \<open>
  Neither query has rows: whatever the store and the parameters, the name \<open>arrayIndexOf\<close>
  does not resolve. So the handler never sends a response, and a request that passes the
  checks on source, target and limit is answered with status 500.
\<close>

lemma page_query_refused:
  "page_query env store siteId incl excl source target ss ts l off \<noteq> Inr rows"
  by (simp add: page_query_def arrayIndexOf_def split: option.splits)

lemma count_query_refused:
  "count_query env store siteId incl excl source target ss ts \<noteq> Inr n"
  by (simp add: count_query_def arrayIndexOf_def split: option.splits)

lemma getJourneyTransitionSessions_never_sends:
  "getJourneyTransitionSessions env store siteId q \<noteq> Send r"
  unfolding getJourneyTransitionSessions_def Let_def
  by (auto simp: page_query_refused split: option.splits sum.splits)

lemma getJourneyTransitionSessions_checked:
  assumes "tq_source q = Some s" "s \<noteq> []" "tq_target q = Some t" "t \<noteq> []"
    and "transition_limit q = Some l" "1 \<le> l" "l \<le> 200"
  shows "getJourneyTransitionSessions env store siteId q
           = Status500 ''Failed to get journey transition sessions''"
  using assms
  unfolding getJourneyTransitionSessions_def transition_limit_def Let_def
  by (auto simp: page_query_refused split: option.splits sum.splits)

lemma default_limit: "transition_limit query_a_to_b = Some 50"
  by (simp add: transition_limit_def query_a_to_b_def parseInt_def isWhiteSpace_def isDigit_def
      digitValue_def)

section \<open>getJourneyTransitionSessions: which sessions qualify\<close>

lemma first_occurrence_le_length: "first_occurrence xs x \<le> length xs"
proof (cases "x \<in> set xs")
  case True
  then have "length (takeWhile (\<lambda>y. y \<noteq> x) xs) < length xs"
    by (induction xs) auto
  with True show ?thesis by (simp add: first_occurrence_def)
next
  case False
  then show ?thesis by (simp add: first_occurrence_def)
qed

lemma transition_occurs_length:
  assumes "transition_occurs source target ss ts p"
  shows "2 \<le> length p"
proof -
  from assms have "0 < first_occurrence p source"
    "first_occurrence p source < first_occurrence p target"
    by (simp_all add: transition_occurs_def)
  then have "2 \<le> first_occurrence p target" by simp
  with first_occurrence_le_length[of p target] show ?thesis by simp
qed

lemma transition_occurs_a_b: "transition_occurs ''/a'' ''/b'' None None [''/a'', ''/b'']"
  by (simp add: transition_occurs_def first_occurrence_def)

lemma demo_transition_scan_pageview:
  "tq_includeEvents q = None \<Longrightarrow> tq_excludeEventNames q = None \<Longrightarrow>
     transition_scan demo_env 1 q (pageview_at s t p)"
  by (simp add: transition_scan_def path_where_def base_where_def demo_env_def pageview_at_def
      parse_excludeEventNames_def)

text \<open>
  C3. The spec retains a session iff the transition occurs in its collapsed path, and
  gives the path \<open>["/a","/b"]\<close> with source \<open>/a\<close> and target \<open>/b\<close> as one that qualifies.
  On the store of one session with that path the session qualifies in the words of the
  spec, and the handler answers the request with status 500: both the page query and
  the count query are refused for the function \<open>arrayIndexOf\<close>, so the session is
  retained by neither.
\<close>

theorem C3_qualifying_session_is_not_retained:
  "collapsed_path transition_label (transition_scan demo_env 1 query_a_to_b) store_a_then_b ''s1''
     = [''/a'', ''/b''] \<and>
   ''s1'' \<in> qualifying_sessions demo_env store_a_then_b 1 query_a_to_b \<and>
   getJourneyTransitionSessions demo_env store_a_then_b ''1'' query_a_to_b
     = Status500 ''Failed to get journey transition sessions'' \<and>
   page_query demo_env store_a_then_b (Some 1) True [] ''/a'' ''/b'' None None 50 (Some 0)
     = Inl (UNKNOWN_FUNCTION ''arrayIndexOf'') \<and>
   count_query demo_env store_a_then_b (Some 1) True [] ''/a'' ''/b'' None None
     = Inl (UNKNOWN_FUNCTION ''arrayIndexOf'')"
proof -
  have p: "collapsed_path transition_label (transition_scan demo_env 1 query_a_to_b)
             store_a_then_b ''s1'' = [''/a'', ''/b'']"
    by code_simp
  have q: "''s1'' \<in> qualifying_sessions demo_env store_a_then_b 1 query_a_to_b"
    using transition_occurs_a_b
    by (simp add: qualifying_sessions_def query_a_to_b_def requested_step_def p[unfolded query_a_to_b_def])
  have h: "getJourneyTransitionSessions demo_env store_a_then_b ''1'' query_a_to_b
     = Status500 ''Failed to get journey transition sessions''"
    using default_limit
    by (intro getJourneyTransitionSessions_checked[where l = 50 and s = "''/a''" and t = "''/b''"])
       (simp_all add: query_a_to_b_def)
  have e: "page_query demo_env store_a_then_b (Some 1) True [] ''/a'' ''/b'' None None 50 (Some 0)
     = Inl (UNKNOWN_FUNCTION ''arrayIndexOf'')"
    "count_query demo_env store_a_then_b (Some 1) True [] ''/a'' ''/b'' None None
     = Inl (UNKNOWN_FUNCTION ''arrayIndexOf'')"
    by (simp_all add: page_query_def count_query_def arrayIndexOf_def demo_env_def)
  from p q h e show ?thesis by blast
qed

section \<open>getJourneyTransitionSessions: the page and the total\<close>

lemma session_name_inj: "session_name i = session_name j \<longleftrightarrow> i = j"
proof
  assume "session_name i = session_name j"
  then have "length (session_name i) = length (session_name j)" by simp
  then show "i = j" by (simp add: session_name_def)
qed simp

lemma demo_scan_pageview:
  "transition_scan demo_env 1 query_page_two_of_fifty (pageview_at s t p)"
  by (rule demo_transition_scan_pageview)
     (simp_all add: query_page_two_of_fifty_def query_a_to_b_def)

lemma store_sessions_filter:
  "filter (\<lambda>e. session_id e = session_name j \<and>
               transition_scan demo_env 1 query_page_two_of_fifty e) (store_sessions n)
     = (if j < n then visit_a_then_b j else [])"
proof (induction n)
  case 0
  then show ?case by (simp add: store_sessions_def)
next
  case (Suc n)
  have s: "store_sessions (Suc n) = store_sessions n @ visit_a_then_b n"
    by (simp add: store_sessions_def)
  have f: "filter (\<lambda>e. session_id e = session_name j \<and>
               transition_scan demo_env 1 query_page_two_of_fifty e) (visit_a_then_b n)
        = (if n = j then visit_a_then_b n else [])"
    by (simp add: visit_a_then_b_def demo_scan_pageview session_name_inj)
       (simp add: pageview_at_def session_name_inj)
  show ?case unfolding s filter_append Suc.IH f by auto
qed

lemma store_sessions_ids:
  "e \<in> set (store_sessions n) \<Longrightarrow> \<exists>i < n. session_id e = session_name i"
  by (auto simp: store_sessions_def visit_a_then_b_def pageview_at_def)

lemma store_sessions_path:
  assumes "j < n"
  shows "collapsed_path transition_label (transition_scan demo_env 1 query_page_two_of_fifty)
           (store_sessions n) (session_name j) = [''/a'', ''/b'']"
proof -
  have "session_events (transition_scan demo_env 1 query_page_two_of_fifty) (store_sessions n)
          (session_name j) = sort_key timestamp (visit_a_then_b j)"
    unfolding session_events_def using assms by (simp only: store_sessions_filter if_True)
  also have "\<dots> = visit_a_then_b j"
    by (simp add: visit_a_then_b_def pageview_at_def)
  finally show ?thesis
    by (simp add: collapsed_path_def visit_a_then_b_def pageview_at_def stepLabelCase_def
        draft_prefix_def startsWith_def)
qed

lemma store_sessions_qualifying:
  "qualifying_sessions demo_env (store_sessions n) 1 query_page_two_of_fifty
     = session_name ` {..<n}"
proof -
  let ?wh = "transition_scan demo_env 1 query_page_two_of_fifty"
  let ?cp = "collapsed_path transition_label ?wh (store_sessions n)"
  have q: "qualifying_sessions demo_env (store_sessions n) 1 query_page_two_of_fifty
        = {s. transition_occurs ''/a'' ''/b'' None None (?cp s)}"
    by (simp add: qualifying_sessions_def query_page_two_of_fifty_def query_a_to_b_def
        requested_step_def)
  show ?thesis unfolding q
  proof (intro set_eqI iffI)
    fix s assume "s \<in> {s. transition_occurs ''/a'' ''/b'' None None (?cp s)}"
    then have "2 \<le> length (?cp s)" by (auto dest: transition_occurs_length)
    then have "session_events ?wh (store_sessions n) s \<noteq> []"
      by (auto simp: collapsed_path_def)
    then obtain e where "e \<in> set (store_sessions n)" "session_id e = s"
      by (auto simp: session_events_nonempty)
    with store_sessions_ids[of e n] show "s \<in> session_name ` {..<n}" by auto
  next
    fix s assume "s \<in> session_name ` {..<n}"
    then obtain j where "j < n" "s = session_name j" by auto
    with store_sessions_path[of j n] transition_occurs_a_b
    show "s \<in> {s. transition_occurs ''/a'' ''/b'' None None (?cp s)}" by simp
  qed
qed

lemma store_sessions_card:
  "card (qualifying_sessions demo_env (store_sessions n) 1 query_page_two_of_fifty) = n"
proof -
  have "inj_on session_name {..<n}" by (simp add: inj_on_def session_name_inj)
  then show ?thesis by (simp add: store_sessions_qualifying card_image)
qed

text \<open>
  C8. The spec's example: 120 qualifying sessions, \<open>page=2\<close>, \<open>limit=50\<close>, for which it
  expects the sessions ranked 51 to 100 and 3 pages. On a store of 120 sessions that
  each visit \<open>/a\<close> and then \<open>/b\<close>, all 120 qualify, the limit and the page are read as 50
  and 2, and the handler answers with status 500: no page and no pagination is returned.
\<close>

theorem C8_page_request_is_refused:
  "card (qualifying_sessions demo_env (store_sessions 120) 1 query_page_two_of_fifty) = 120 \<and>
   transition_limit query_page_two_of_fifty = Some 50 \<and>
   transition_page query_page_two_of_fifty = Some 2 \<and>
   getJourneyTransitionSessions demo_env (store_sessions 120) ''1'' query_page_two_of_fifty
     = Status500 ''Failed to get journey transition sessions''"
proof -
  have c: "card (qualifying_sessions demo_env (store_sessions 120) 1 query_page_two_of_fifty) = 120"
    by (rule store_sessions_card)
  have l: "transition_limit query_page_two_of_fifty = Some 50"
    by (simp add: transition_limit_def query_page_two_of_fifty_def query_a_to_b_def parseInt_def
        isWhiteSpace_def isDigit_def digitValue_def)
  have p: "transition_page query_page_two_of_fifty = Some 2"
    by (simp add: transition_page_def query_page_two_of_fifty_def query_a_to_b_def parseInt_def
        isWhiteSpace_def isDigit_def digitValue_def)
  have h: "getJourneyTransitionSessions demo_env (store_sessions 120) ''1'' query_page_two_of_fifty
     = Status500 ''Failed to get journey transition sessions''"
    using l
    by (intro getJourneyTransitionSessions_checked[where l = 50 and s = "''/a''" and t = "''/b''"])
       (simp_all add: query_page_two_of_fifty_def query_a_to_b_def)
  from c l p h show ?thesis by blast
qed

section \<open>Sessions with a single step\<close>

text \<open>
  C7. A session whose collapsed path has length 1 is in no journey of getJourneys: a
  journey's path is never the path of such a session, and a journey's count is a count
  of the other sessions. In getJourneyTransitionSessions the \<open>HAVING\<close> line of each
  \<open>user_paths\<close> leaves the session out of both CTEs, it does not qualify for any
  transition, and the handler sends no result at all.
\<close>

theorem C7_single_step_sessions_excluded:
  "(getJourneys env store siteId jq = Send js \<and> j \<in> set js \<and> parseInt siteId = Some sid \<and>
    journeys_steps jq = Some steps \<and>
    length (collapsed_path journeys_label (journeys_scan env sid jq) store s) = 1 \<longrightarrow>
      path j \<noteq> take (nat steps) (collapsed_path journeys_label (journeys_scan env sid jq) store s) \<and>
      count j = card {s'. s' \<noteq> s \<and>
                  2 \<le> length (collapsed_path journeys_label (journeys_scan env sid jq) store s') \<and>
                  take (nat steps) (collapsed_path journeys_label (journeys_scan env sid jq) store s')
                    = path j}) \<and>
   (length (collapsed_path transition_label (transition_scan env sid tq) store s) = 1 \<longrightarrow>
      s \<notin> fst ` set (user_paths_transition (transition_scan env sid tq) store) \<and>
      s \<notin> fst ` set (user_paths_count (transition_scan env sid tq) store) \<and>
      s \<notin> qualifying_sessions env store sid tq) \<and>
   getJourneyTransitionSessions env store siteId tq \<noteq> Send r"
proof (intro conjI impI)
  assume a: "getJourneys env store siteId jq = Send js \<and> j \<in> set js \<and> parseInt siteId = Some sid \<and>
    journeys_steps jq = Some steps \<and>
    length (collapsed_path journeys_label (journeys_scan env sid jq) store s) = 1"
  let ?cp = "collapsed_path journeys_label (journeys_scan env sid jq) store"
  from a have g: "getJourneys env store siteId jq = Send js" "j \<in> set js" by simp_all
  from getJourneys_journey[OF g] a have
    st: "2 \<le> steps" and
    c: "count j = card {s'. 2 \<le> length (?cp s') \<and> take (nat steps) (?cp s') = path j}" and
    ex: "\<exists>s'. 2 \<le> length (?cp s') \<and> take (nat steps) (?cp s') = path j"
    by auto
  from ex obtain s' where s': "2 \<le> length (?cp s')" "take (nat steps) (?cp s') = path j" by blast
  have "length (take (nat steps) (?cp s')) = min (length (?cp s')) (nat steps)" by simp
  with s' st have l2: "2 \<le> length (path j)" by auto
  from a have l1: "length (take (nat steps) (?cp s)) \<le> 1" by simp
  from l1 l2 show "path j \<noteq> take (nat steps) (?cp s)" by auto
  from a have "{s'. 2 \<le> length (?cp s') \<and> take (nat steps) (?cp s') = path j}
        = {s'. s' \<noteq> s \<and> 2 \<le> length (?cp s') \<and> take (nat steps) (?cp s') = path j}"
    by auto
  with c show "count j = card {s'. s' \<noteq> s \<and> 2 \<le> length (?cp s') \<and>
                                 take (nat steps) (?cp s') = path j}"
    by simp
next
  assume a: "length (collapsed_path transition_label (transition_scan env sid tq) store s) = 1"
  show "s \<notin> fst ` set (user_paths_transition (transition_scan env sid tq) store)"
  proof
    assume "s \<in> fst ` set (user_paths_transition (transition_scan env sid tq) store)"
    then obtain p ts where "(s, p, ts) \<in> set (user_paths_transition (transition_scan env sid tq) store)"
      by auto
    then have "2 \<le> length (collapsed_path transition_label (transition_scan env sid tq) store s)"
      by (auto simp: user_paths_transition_mem)
    with a show False by simp
  qed
next
  assume a: "length (collapsed_path transition_label (transition_scan env sid tq) store s) = 1"
  show "s \<notin> fst ` set (user_paths_count (transition_scan env sid tq) store)"
  proof
    assume "s \<in> fst ` set (user_paths_count (transition_scan env sid tq) store)"
    then obtain p where "(s, p) \<in> set (user_paths_count (transition_scan env sid tq) store)"
      by auto
    then have "2 \<le> length (collapsed_path transition_label (transition_scan env sid tq) store s)"
      by (auto simp: user_paths_count_mem)
    with a show False by simp
  qed
next
  assume a: "length (collapsed_path transition_label (transition_scan env sid tq) store s) = 1"
  show "s \<notin> qualifying_sessions env store sid tq"
  proof
    assume "s \<in> qualifying_sessions env store sid tq"
    then obtain source target where
      "transition_occurs source target (requested_step (tq_sourceStep tq))
         (requested_step (tq_targetStep tq))
         (collapsed_path transition_label (transition_scan env sid tq) store s)"
      by (auto simp: qualifying_sessions_def split: option.splits)
    then have "2 \<le> length (collapsed_path transition_label (transition_scan env sid tq) store s)"
      by (rule transition_occurs_length)
    with a show False by simp
  qed
next
  show "getJourneyTransitionSessions env store siteId tq \<noteq> Send r"
    by (rule getJourneyTransitionSessions_never_sends)
qed

lemma demo_getJourneys_three:
  "getJourneys demo_env store_three_transitions ''1'' default_journeys_query
     = Send [\<lparr>path = [''/a'', ''/b''], count = 3, percentage = 75\<rparr>]"
  by code_simp

theorem C7_single_step_witness:
  "length (collapsed_path journeys_label (journeys_scan demo_env 1 default_journeys_query)
             store_three_transitions ''s4'') = 1 \<and>
   path \<lparr>path = [''/a'', ''/b''], count = 3, percentage = 75\<rparr> \<noteq> take (nat 3)
      (collapsed_path journeys_label (journeys_scan demo_env 1 default_journeys_query)
         store_three_transitions ''s4'') \<and>
   length (collapsed_path transition_label (transition_scan demo_env 1 query_a_to_b)
             store_three_transitions ''s4'') = 1 \<and>
   ''s4'' \<notin> fst ` set (user_paths_transition (transition_scan demo_env 1 query_a_to_b)
                         store_three_transitions) \<and>
   ''s4'' \<notin> fst ` set (user_paths_count (transition_scan demo_env 1 query_a_to_b)
                         store_three_transitions) \<and>
   ''s4'' \<notin> qualifying_sessions demo_env store_three_transitions 1 query_a_to_b \<and>
   map fst (user_paths_count (transition_scan demo_env 1 query_a_to_b) store_three_transitions)
     = [''s1'', ''s2'', ''s3'']"
proof -
  have ps: "parseInt ''1'' = Some 1"
    by (simp add: parseInt_def isWhiteSpace_def isDigit_def digitValue_def)
  have st: "journeys_steps default_journeys_query = Some 3"
    by (simp add: journeys_steps_def default_journeys_query_def parseInt_def isWhiteSpace_def
        isDigit_def digitValue_def)
  have l1: "length (collapsed_path journeys_label (journeys_scan demo_env 1 default_journeys_query)
             store_three_transitions ''s4'') = 1"
    by code_simp
  have l2: "length (collapsed_path transition_label (transition_scan demo_env 1 query_a_to_b)
             store_three_transitions ''s4'') = 1"
    by code_simp
  have u: "map fst (user_paths_count (transition_scan demo_env 1 query_a_to_b)
             store_three_transitions) = [''s1'', ''s2'', ''s3'']"
    by code_simp
  have j: "\<lparr>path = [''/a'', ''/b''], count = 3, percentage = 75\<rparr>
             \<in> set [\<lparr>path = [''/a'', ''/b''], count = 3, percentage = 75\<rparr>]"
    by simp
  from C7_single_step_sessions_excluded[where env = demo_env and store = store_three_transitions
      and siteId = "''1''" and jq = default_journeys_query
      and js = "[\<lparr>path = [''/a'', ''/b''], count = 3, percentage = 75\<rparr>]"
      and j = "\<lparr>path = [''/a'', ''/b''], count = 3, percentage = 75\<rparr>" and sid = 1
      and steps = 3 and s = "''s4''" and tq = query_a_to_b]
    demo_getJourneys_three ps st l1 l2 j u
  show ?thesis by blast
qed

section \<open>The transition timestamp\<close>

text \<open>
  C2. The spec takes the transition timestamp from the event at which the source step
  first occurs. For a session with page views \<open>/x\<close>, \<open>/x\<close>, \<open>/a\<close>, \<open>/b\<close> at times 1 to 4
  the collapsed path is \<open>[/x, /a, /b]\<close>, the transition from \<open>/a\<close> to \<open>/b\<close> occurs in it
  and the source first occurs at time 3. The handler answers the request with status
  500: it returns no transition timestamp for the session.
\<close>

theorem C2_no_transition_timestamp_is_returned:
  "map (\<lambda>e. (transition_label e, timestamp e))
     (session_events (transition_scan demo_env 1 query_a_to_b) store_repeat_before_source ''s1'')
     = [(''/x'', 1), (''/x'', 2), (''/a'', 3), (''/b'', 4)] \<and>
   collapsed_path transition_label (transition_scan demo_env 1 query_a_to_b)
     store_repeat_before_source ''s1'' = [''/x'', ''/a'', ''/b''] \<and>
   transition_occurs ''/a'' ''/b'' None None [''/x'', ''/a'', ''/b''] \<and>
   getJourneyTransitionSessions demo_env store_repeat_before_source ''1'' query_a_to_b
     = Status500 ''Failed to get journey transition sessions''"
proof -
  have a: "map (\<lambda>e. (transition_label e, timestamp e))
     (session_events (transition_scan demo_env 1 query_a_to_b) store_repeat_before_source ''s1'')
     = [(''/x'', 1), (''/x'', 2), (''/a'', 3), (''/b'', 4)]"
    by code_simp
  have b: "collapsed_path transition_label (transition_scan demo_env 1 query_a_to_b)
     store_repeat_before_source ''s1'' = [''/x'', ''/a'', ''/b'']"
    by code_simp
  have c: "transition_occurs ''/a'' ''/b'' None None [''/x'', ''/a'', ''/b'']"
    by (simp add: transition_occurs_def first_occurrence_def)
  have h: "getJourneyTransitionSessions demo_env store_repeat_before_source ''1'' query_a_to_b
     = Status500 ''Failed to get journey transition sessions''"
    using default_limit
    by (intro getJourneyTransitionSessions_checked[where l = 50 and s = "''/a''" and t = "''/b''"])
       (simp_all add: query_a_to_b_def)
  from a b c h show ?thesis by blast
qed

subsection \<open>The CTE with a first-occurrence index\<close>

text \<open>
  What the text of \<open>matching_sessions\<close> computes when the function it calls is the
  first-occurrence index that the spec names: its \<open>WHERE\<close> clause is then the spec's
  condition, for step parameters that are numbers when given. The column
  \<open>transition_timestamp\<close> is read from \<open>timestamps\<close>, which is not compacted, at a
  position of the compacted path: for the session above it is 2, the time of the second
  view of \<open>/x\<close>.
\<close>

lemma step_constraint_requested:
  "numeric_if_given step \<Longrightarrow>
     step_constraint step i =
       (case requested_step step of None \<Rightarrow> True | Some n \<Rightarrow> int i = n + 1)"
  by (auto simp: step_constraint_def requested_step_def numeric_if_given_def split: option.splits)

lemma transition_where_first_occurrence:
  "numeric_if_given sourceStep \<Longrightarrow> numeric_if_given targetStep \<Longrightarrow>
     transition_where first_occurrence source target sourceStep targetStep p =
       transition_occurs source target (requested_step sourceStep) (requested_step targetStep) p"
  by (simp add: transition_where_def transition_occurs_def step_constraint_requested)

lemma matching_sessions_first_occurrence_repeat:
  "matching_sessions first_occurrence ''/a'' ''/b'' None None
     (user_paths_transition (transition_scan demo_env 1 query_a_to_b) store_repeat_before_source)
     = [\<lparr>ms_session_id = ''s1'', source_index = 2, target_index = 3, transition_timestamp = 2\<rparr>]"
  by code_simp

section \<open>Validation of the pagination parameters\<close>

text \<open>
  The check that the handler does make: with source and target given, a \<open>limit\<close> that is
  not a number or is outside 1..200 is answered with status 400.
\<close>

lemma limit_is_validated:
  assumes "tq_source q = Some s" "s \<noteq> []" "tq_target q = Some t" "t \<noteq> []"
    and "transition_limit q = None \<or> (\<exists>l. transition_limit q = Some l \<and> (l < 1 \<or> 200 < l))"
  shows "getJourneyTransitionSessions env store siteId q
           = Status400 ''limit must be between 1 and 200''"
  using assms
  unfolding getJourneyTransitionSessions_def transition_limit_def Let_def
  by (auto split: option.splits)

text \<open>
  C5. The spec asks for a client error on a non-numeric \<open>limit\<close> or \<open>page\<close> and on a
  \<open>page\<close> below 1. The handler checks \<open>limit\<close> only: with \<open>page=abc\<close> the offset is
  \<open>NaN\<close>, the query is sent and the answer is status 500; with \<open>page=0\<close> the answer is
  not a status 400 either. A non-numeric \<open>limit\<close> does give status 400.
\<close>

theorem C5_page_is_not_validated:
  "getJourneyTransitionSessions env store siteId (query_a_to_b\<lparr>tq_page := Some ''abc''\<rparr>)
     = Status500 ''Failed to get journey transition sessions'' \<and>
   (\<forall>m. getJourneyTransitionSessions env store siteId (query_a_to_b\<lparr>tq_page := Some ''0''\<rparr>)
          \<noteq> Status400 m) \<and>
   getJourneyTransitionSessions env store siteId (query_a_to_b\<lparr>tq_limit := Some ''abc''\<rparr>)
     = Status400 ''limit must be between 1 and 200''"
proof -
  have a: "parseInt ''abc'' = None" "parseInt ''0'' = Some 0" "parseInt ''50'' = Some 50"
    "parseInt ''1'' = Some 1"
    by (simp_all add: parseInt_def isWhiteSpace_def isDigit_def digitValue_def)
  have "getJourneyTransitionSessions env store siteId (query_a_to_b\<lparr>tq_page := Some ''abc''\<rparr>)
     = Status500 ''Failed to get journey transition sessions''"
    by (simp add: getJourneyTransitionSessions_def query_a_to_b_def a Let_def page_query_def
        split: option.splits)
  moreover have "getJourneyTransitionSessions env store siteId
        (query_a_to_b\<lparr>tq_page := Some ''0''\<rparr>)
     = Status500 ''Failed to get journey transition sessions''"
    by (simp add: getJourneyTransitionSessions_def query_a_to_b_def a Let_def page_query_def
        arrayIndexOf_def split: option.splits)
  moreover have "getJourneyTransitionSessions env store siteId
        (query_a_to_b\<lparr>tq_limit := Some ''abc''\<rparr>)
     = Status400 ''limit must be between 1 and 200''"
    by (simp add: getJourneyTransitionSessions_def query_a_to_b_def a Let_def split: option.splits)
  ultimately show ?thesis by simp
qed

section \<open>getJourneyStepEventDetails\<close>













end
